theory Spec2Isabelle
  imports Main "HOL-Library.Char_ord" "HOL-Library.List_Lexorder" "HOL-Library.Product_Lexorder"
begin

section \<open>JavaScript numbers and their decimal strings\<close>

text \<open>
  The services keep counters and scores in Redis as strings: they write
  \<^verbatim>\<open>n.toString()\<close> and read back with \<^verbatim>\<open>parseInt\<close>. A number is an
  integer or \<^verbatim>\<open>NaN\<close>; \<open>toString\<close> is the decimal rendering of an integer and
  \<open>parseInt\<close> follows ECMAScript: leading white space, an optional sign, an optional
  \<^verbatim>\<open>0x\<close> prefix, then the longest run of digits, \<^verbatim>\<open>NaN\<close> when there is none.
\<close>


datatype number = NaN | Number int

definition digit_char :: "nat \<Rightarrow> char" where
  "digit_char d = ''0123456789'' ! d"

function digits :: "nat \<Rightarrow> string" where
  "digits n = (if n < 10 then [digit_char n] else digits (n div 10) @ [digit_char (n mod 10)])"
  by pat_completeness auto
termination
  by (relation "measure id") auto

declare digits.simps [simp del]

definition toString :: "number \<Rightarrow> string" where
  "toString x = (case x of NaN \<Rightarrow> ''NaN''
     | Number i \<Rightarrow> if i < 0 then CHR ''-'' # digits (nat (- i)) else digits (nat i))"

definition is_ws :: "char \<Rightarrow> bool" where
  "is_ws c = ((of_char c :: nat) \<in> {9, 10, 11, 12, 13, 32})"

definition digit_val :: "nat \<Rightarrow> char \<Rightarrow> nat option" where
  "digit_val radix c =
     (let k = (of_char c :: nat);
          v = (if 48 \<le> k \<and> k \<le> 57 then Some (k - 48)
               else if 97 \<le> k \<and> k \<le> 122 then Some (k - 87)
               else if 65 \<le> k \<and> k \<le> 90 then Some (k - 55)
               else None)
      in case v of None \<Rightarrow> None | Some d \<Rightarrow> if d < radix then Some d else None)"

fun parse_digits :: "nat \<Rightarrow> nat option \<Rightarrow> string \<Rightarrow> nat option" where
  "parse_digits radix acc [] = acc"
| "parse_digits radix acc (c # cs) =
     (case digit_val radix c of
        None \<Rightarrow> acc
      | Some d \<Rightarrow> parse_digits radix (Some (case acc of None \<Rightarrow> d | Some a \<Rightarrow> a * radix + d)) cs)"

definition parseInt :: "string \<Rightarrow> number" where
  "parseInt s =
     (let s1 = dropWhile is_ws s;
          neg = (take 1 s1 = ''-'');
          s2 = (if take 1 s1 = ''-'' \<or> take 1 s1 = ''+'' then drop 1 s1 else s1);
          hex = (take 2 s2 = ''0x'' \<or> take 2 s2 = ''0X'');
          s3 = (if hex then drop 2 s2 else s2)
      in case parse_digits (if hex then 16 else 10) None s3 of
           None \<Rightarrow> NaN
         | Some n \<Rightarrow> Number (if neg then - int n else int n))"



definition plus_number :: "number \<Rightarrow> number \<Rightarrow> number" where
  "plus_number a b = (case (a, b) of (Number x, Number y) \<Rightarrow> Number (x + y) | _ \<Rightarrow> NaN)"

definition minus_number :: "number \<Rightarrow> number \<Rightarrow> number" where
  "minus_number a b = (case (a, b) of (Number x, Number y) \<Rightarrow> Number (x - y) | _ \<Rightarrow> NaN)"

definition ge_number :: "number \<Rightarrow> number \<Rightarrow> bool" where
  "ge_number a b = (case (a, b) of (Number x, Number y) \<Rightarrow> x \<ge> y | _ \<Rightarrow> False)"

section \<open>Data model (types.ts)\<close>

type_synonym time = nat

record ActionToken =
  tok_userId :: string
  tok_actionType :: string
  tok_timestamp :: nat
  tok_nonce :: string

text \<open>
  An action token is a string handed to \<^verbatim>\<open>jwt.verify\<close>. What the library makes of
  it is all the code sees: either the string is no token at all, or it is a payload signed
  with some key and carrying an expiry time (in seconds).
\<close>

datatype token = Opaque string | Jwt string ActionToken time

datatype ErrorCodes =
    INVALID_ACTION_TOKEN | EXPIRED_TOKEN | UNAUTHORIZED | RATE_LIMIT_EXCEEDED
  | INVALID_SCORE_INCREMENT | USER_NOT_FOUND | INTERNAL_ERROR

fun code_string :: "ErrorCodes \<Rightarrow> string" where
  "code_string INVALID_ACTION_TOKEN = ''INVALID_ACTION_TOKEN''"
| "code_string EXPIRED_TOKEN = ''EXPIRED_TOKEN''"
| "code_string UNAUTHORIZED = ''UNAUTHORIZED''"
| "code_string RATE_LIMIT_EXCEEDED = ''RATE_LIMIT_EXCEEDED''"
| "code_string INVALID_SCORE_INCREMENT = ''INVALID_SCORE_INCREMENT''"
| "code_string USER_NOT_FOUND = ''USER_NOT_FOUND''"
| "code_string INTERNAL_ERROR = ''INTERNAL_ERROR''"

record UserScore =
  us_userId :: string
  username :: string
  currentScore :: number
  lastUpdated :: time
  rank :: "nat option"

record LeaderboardResponse =
  topUsers :: "UserScore list"
  lr_lastUpdated :: time
  totalUsers :: nat

record ScoreUpdateRequest =
  userId :: string
  actionType :: string
  scoreIncrement :: int
  actionToken :: token
  timestamp :: time

record ScoreUpdateResponse =
  success :: bool
  newScore :: number
  newRank :: "nat option"
  message :: "string option"

text \<open>The audit row; its \<^verbatim>\<open>id\<close> is a fresh random UUID and is left out.\<close>

record AuditLogEntry =
  entry_userId :: string
  entry_actionType :: string
  scoreChange :: int
  previousScore :: number
  entry_newScore :: number
  ipAddress :: string
  userAgent :: string
  entry_timestamp :: time
  entry_success :: bool
  errorMessage :: "string option"

datatype notification =
    ScoreUpdateNotification string number "nat option" "nat option" int
  | LeaderboardUpdate

section \<open>The stores: Redis, PostgreSQL, and the world they make up\<close>

text \<open>
  A Redis string key holds a value and, when it was written with \<^verbatim>\<open>SETEX\<close>, the
  time at which it expires. A value is text; the leaderboard snapshot that
  \<^verbatim>\<open>getTopUsers\<close> stores with \<^verbatim>\<open>JSON.stringify\<close> and reads with
  \<^verbatim>\<open>JSON.parse\<close> is kept as the response it encodes.
\<close>

datatype rvalue = Text string | Snapshot LeaderboardResponse

datatype stmt = BEGIN | COMMIT | ROLLBACK | UPSERT_SCORE | INSERT_AUDIT | SELECT_SCORE

text \<open>
  \<open>kv\<close>: the Redis string keys. \<open>leaderboard\<close>: the members and scores of the
  sorted set \<^verbatim>\<open>leaderboard:global\<close>, in no particular order. \<open>user_scores\<close> and
  \<open>audit_log\<close>: the two tables. \<open>tx\<close>: the tables as they were when the open
  transaction began. \<open>sent\<close>: what was handed to the WebSocket manager.
\<close>

record world =
  kv :: "string \<Rightarrow> (rvalue \<times> time option) option"
  leaderboard :: "(string \<times> int) list"
  user_scores :: "string \<Rightarrow> int option"
  audit_log :: "AuditLogEntry list"
  tx :: "((string \<Rightarrow> int option) \<times> AuditLogEntry list) option"
  sent :: "notification list"

text \<open>
  What a call cannot control: the clock (seconds), whether the Redis client is connected,
  which database statements fail (and with what message), and the signing secret.
\<close>

record env =
  now :: time
  redis_up :: bool
  db_error :: "stmt \<Rightarrow> string option"
  jwtSecret :: string

datatype exn = Error string | TokenExpiredError | JsonWebTokenError

fun error_message :: "exn \<Rightarrow> string" where
  "error_message (Error m) = m"
| "error_message TokenExpiredError = ''jwt expired''"
| "error_message JsonWebTokenError = ''invalid token''"

type_synonym 'a io = "world \<Rightarrow> (exn + 'a) \<times> world"

definition succeed :: "'a \<Rightarrow> 'a io" where
  "succeed x = (\<lambda>w. (Inr x, w))"

definition throw :: "exn \<Rightarrow> 'a io" where
  "throw e = (\<lambda>w. (Inl e, w))"

definition andThen :: "'a io \<Rightarrow> ('a \<Rightarrow> 'b io) \<Rightarrow> 'b io" where
  "andThen m f = (\<lambda>w. case m w of (Inl e, w') \<Rightarrow> (Inl e, w') | (Inr x, w') \<Rightarrow> f x w')"

definition catch :: "'a io \<Rightarrow> (exn \<Rightarrow> 'a io) \<Rightarrow> 'a io" where
  "catch m h = (\<lambda>w. case m w of (Inl e, w') \<Rightarrow> h e w' | (Inr x, w') \<Rightarrow> (Inr x, w'))"

subsection \<open>RedisClient.ts\<close>

definition live :: "time \<Rightarrow> (rvalue \<times> time option) option \<Rightarrow> rvalue option" where
  "live t entry =
     (case entry of
        None \<Rightarrow> None
      | Some (v, None) \<Rightarrow> Some v
      | Some (v, Some expiry) \<Rightarrow> if t < expiry then Some v else None)"

definition connected :: "env \<Rightarrow> 'a io \<Rightarrow> 'a io" where
  "connected e m =
     (if redis_up e then m else throw (Error ''Redis client not initialized or not connected''))"

definition redis_get :: "env \<Rightarrow> string \<Rightarrow> rvalue option io" where
  "redis_get e key = connected e (\<lambda>w. (Inr (live (now e) (kv w key)), w))"

text \<open>\<^verbatim>\<open>SET key value\<close>: Redis overwrites the value and discards any time to live.\<close>

definition redis_set :: "env \<Rightarrow> string \<Rightarrow> rvalue \<Rightarrow> unit io" where
  "redis_set e key v = connected e (\<lambda>w. (Inr (), w\<lparr>kv := (kv w)(key \<mapsto> (v, None))\<rparr>))"

definition redis_setex :: "env \<Rightarrow> string \<Rightarrow> nat \<Rightarrow> rvalue \<Rightarrow> unit io" where
  "redis_setex e key seconds v =
     connected e (\<lambda>w. (Inr (), w\<lparr>kv := (kv w)(key \<mapsto> (v, Some (now e + seconds)))\<rparr>))"

definition redis_del :: "env \<Rightarrow> string \<Rightarrow> nat io" where
  "redis_del e key =
     connected e (\<lambda>w. (Inr (if live (now e) (kv w key) = None then 0 else 1),
                        w\<lparr>kv := (kv w)(key := None)\<rparr>))"

text \<open>
  The sorted set. Redis orders it by score and, for equal scores, by member; the reverse
  commands read it from the highest score down. \<^verbatim>\<open>ZADD\<close> moves a member that is
  already there and refuses a score that is not a number.
\<close>

definition zkey :: "string \<times> int \<Rightarrow> int \<times> string" where
  "zkey = (\<lambda>(m, s). (s, m))"

definition zset_desc :: "(string \<times> int) list \<Rightarrow> (string \<times> int) list" where
  "zset_desc zs = rev (sort_key zkey zs)"

definition zrange_slice :: "int \<Rightarrow> int \<Rightarrow> 'a list \<Rightarrow> 'a list" where
  "zrange_slice start stop xs =
     (let n = int (length xs);
          a = (if start < 0 then max 0 (n + start) else start);
          b = (if stop < 0 then n + stop else min stop (n - 1))
      in if a > b \<or> a \<ge> n then [] else take (nat (b - a + 1)) (drop (nat a) xs))"

fun index_of :: "'a \<Rightarrow> 'a list \<Rightarrow> nat option" where
  "index_of x [] = None"
| "index_of x (y # ys) = (if x = y then Some 0 else map_option Suc (index_of x ys))"

definition zadd :: "env \<Rightarrow> number \<Rightarrow> string \<Rightarrow> nat io" where
  "zadd e score member =
     connected e
       (case score of
          NaN \<Rightarrow> throw (Error ''ERR value is not a valid float'')
        | Number s \<Rightarrow>
            (\<lambda>w. (Inr (if member \<in> fst ` set (leaderboard w) then 0 else 1),
                   w\<lparr>leaderboard := (member, s) # filter (\<lambda>(m, _). m \<noteq> member) (leaderboard w)\<rparr>)))"

definition zrevrange :: "env \<Rightarrow> int \<Rightarrow> int \<Rightarrow> bool \<Rightarrow> string list io" where
  "zrevrange e start stop withScores =
     connected e
       (\<lambda>w. let result = zrange_slice start stop (zset_desc (leaderboard w))
             in (Inr (if withScores
                      then map (\<lambda>(v, s). v @ '':'' @ toString (Number s)) result
                      else map fst result), w))"

definition zrank :: "env \<Rightarrow> string \<Rightarrow> nat option io" where
  "zrank e member =
     connected e (\<lambda>w. (Inr (index_of member (map fst (zset_desc (leaderboard w)))), w))"

definition zscore :: "env \<Rightarrow> string \<Rightarrow> string option io" where
  "zscore e member =
     connected e
       (\<lambda>w. (Inr (map_option (\<lambda>s. toString (Number s)) (map_of (leaderboard w) member)), w))"

definition zcard :: "env \<Rightarrow> nat io" where
  "zcard e = connected e (\<lambda>w. (Inr (length (leaderboard w)), w))"

subsection \<open>DatabaseConnection.ts and the statements the services send\<close>

text \<open>
  A statement that fails raises the driver's error and changes nothing. The statements of
  one call run on one session: \<^verbatim>\<open>BEGIN\<close> remembers the tables, \<^verbatim>\<open>ROLLBACK\<close>
  puts them back, \<^verbatim>\<open>COMMIT\<close> forgets the remembered copy. Uncommitted work is lost
  also when the \<^verbatim>\<open>ROLLBACK\<close> statement itself fails, since the session that held it
  is gone. The score and audit columns are \<^verbatim>\<open>INTEGER\<close>: \<^verbatim>\<open>NaN\<close> is refused.
\<close>

definition db_query :: "env \<Rightarrow> stmt \<Rightarrow> (world \<Rightarrow> 'a \<times> world) \<Rightarrow> 'a io" where
  "db_query e q run =
     (case db_error e q of
        Some m \<Rightarrow> throw (Error m)
      | None \<Rightarrow> (\<lambda>w. case run w of (x, w') \<Rightarrow> (Inr x, w')))"

definition db_begin :: "env \<Rightarrow> unit io" where
  "db_begin e =
     db_query e BEGIN
       (\<lambda>w. ((), if tx w = None then w\<lparr>tx := Some (user_scores w, audit_log w)\<rparr> else w))"

definition db_commit :: "env \<Rightarrow> unit io" where
  "db_commit e = db_query e COMMIT (\<lambda>w. ((), w\<lparr>tx := None\<rparr>))"

definition discard_tx :: "world \<Rightarrow> world" where
  "discard_tx w =
     (case tx w of
        None \<Rightarrow> w
      | Some (scores, audit) \<Rightarrow> w\<lparr>user_scores := scores, audit_log := audit, tx := None\<rparr>)"

definition db_rollback :: "env \<Rightarrow> unit io" where
  "db_rollback e =
     (\<lambda>w. case db_error e ROLLBACK of
             Some m \<Rightarrow> (Inl (Error m), discard_tx w)
           | None \<Rightarrow> (Inr (), discard_tx w))"

definition not_an_integer :: exn where
  "not_an_integer = Error ''invalid input syntax for type integer''"

definition db_upsert_score :: "env \<Rightarrow> string \<Rightarrow> number \<Rightarrow> unit io" where
  "db_upsert_score e uid score =
     (case score of
        NaN \<Rightarrow> throw not_an_integer
      | Number s \<Rightarrow> db_query e UPSERT_SCORE (\<lambda>w. ((), w\<lparr>user_scores := (user_scores w)(uid \<mapsto> s)\<rparr>)))"

definition db_insert_audit :: "env \<Rightarrow> AuditLogEntry \<Rightarrow> unit io" where
  "db_insert_audit e entry =
     (if previousScore entry = NaN \<or> entry_newScore entry = NaN then throw not_an_integer
      else db_query e INSERT_AUDIT (\<lambda>w. ((), w\<lparr>audit_log := audit_log w @ [entry]\<rparr>)))"

definition db_select_score :: "env \<Rightarrow> string \<Rightarrow> int option io" where
  "db_select_score e uid = db_query e SELECT_SCORE (\<lambda>w. (user_scores w uid, w))"

section \<open>AuthService\<close>

definition tokenExpiration :: nat where
  "tokenExpiration = 5 * 60"

text \<open>
  \<^verbatim>\<open>jwt.verify(token, secret)\<close>: a string that is no token, or one signed with another
  key, raises \<^verbatim>\<open>JsonWebTokenError\<close>; a well-signed token whose expiry has been reached
  raises \<^verbatim>\<open>TokenExpiredError\<close>; otherwise the payload is returned.
\<close>

definition jwt_verify :: "env \<Rightarrow> token \<Rightarrow> ActionToken io" where
  "jwt_verify e t =
     (case t of
        Opaque _ \<Rightarrow> throw JsonWebTokenError
      | Jwt key payload expiry \<Rightarrow>
          if key \<noteq> jwtSecret e then throw JsonWebTokenError
          else if expiry \<le> now e then throw TokenExpiredError
          else succeed payload)"

text \<open>\<^verbatim>\<open>generateActionToken\<close>; the random nonce is an argument.\<close>

definition generateActionToken :: "env \<Rightarrow> string \<Rightarrow> string \<Rightarrow> string \<Rightarrow> token" where
  "generateActionToken e uid action nonce =
     Jwt (jwtSecret e)
       \<lparr>tok_userId = uid, tok_actionType = action, tok_timestamp = now e * 1000, tok_nonce = nonce\<rparr>
       (now e + tokenExpiration)"

record validation =
  valid :: bool
  error :: "ErrorCodes option"

definition validActionTypes :: "string list" where
  "validActionTypes =
     [''GAME_COMPLETE'', ''LEVEL_COMPLETE'', ''ACHIEVEMENT_UNLOCK'', ''BONUS_COLLECT'', ''DAILY_LOGIN'']"

text \<open>A string is truthy unless it is empty; a stored snapshot is a non-empty string.\<close>

definition truthy :: "rvalue option \<Rightarrow> bool" where
  "truthy v = (v \<noteq> None \<and> v \<noteq> Some (Text ''''))"

definition token_key :: "string \<Rightarrow> string" where
  "token_key nonce = ''action_token:'' @ nonce"

definition validateActionToken :: "env \<Rightarrow> token \<Rightarrow> string \<Rightarrow> world \<Rightarrow> validation \<times> world" where
  "validateActionToken e t uid =
     (\<lambda>w. case
        andThen (jwt_verify e t) (\<lambda>decoded.
          if tok_userId decoded \<noteq> uid
          then succeed \<lparr>valid = False, error = Some UNAUTHORIZED\<rparr>
          else
            andThen (redis_get e (token_key (tok_nonce decoded))) (\<lambda>tokenUsed.
              if truthy tokenUsed
              then succeed \<lparr>valid = False, error = Some INVALID_ACTION_TOKEN\<rparr>
              else
                andThen (redis_setex e (token_key (tok_nonce decoded)) tokenExpiration (Text ''used''))
                  (\<lambda>_.
                    if tok_actionType decoded \<notin> set validActionTypes
                    then succeed \<lparr>valid = False, error = Some INVALID_ACTION_TOKEN\<rparr>
                    else succeed \<lparr>valid = True, error = None\<rparr>))) w
      of
        (Inr r, w') \<Rightarrow> (r, w')
      | (Inl err, w') \<Rightarrow>
          (if err = TokenExpiredError
           then \<lparr>valid = False, error = Some EXPIRED_TOKEN\<rparr>
           else \<lparr>valid = False, error = Some INVALID_ACTION_TOKEN\<rparr>, w'))"

definition checkUserExists :: "env \<Rightarrow> string \<Rightarrow> bool io" where
  "checkUserExists e uid =
     andThen (redis_get e (''user:'' @ uid)) (\<lambda>userData.
       succeed (userData \<noteq> None \<or> length uid \<ge> 3))"

definition validateUser :: "env \<Rightarrow> string \<Rightarrow> bool io" where
  "validateUser e uid =
     (if uid = [] \<or> length uid < 3 then succeed False else checkUserExists e uid)"

record rate_check =
  allowed :: bool
  remaining :: number

definition rate_limit_key :: "string \<Rightarrow> string \<Rightarrow> string" where
  "rate_limit_key uid action = ''rate_limit:'' @ uid @ '':'' @ action"

definition maxRequests :: int where
  "maxRequests = 10"

definition windowSeconds :: nat where
  "windowSeconds = 60"

definition value_text :: "rvalue \<Rightarrow> string" where
  "value_text v = (case v of Text s \<Rightarrow> s | Snapshot _ \<Rightarrow> ''{}'')"

definition checkRateLimit :: "env \<Rightarrow> string \<Rightarrow> string \<Rightarrow> rate_check io" where
  "checkRateLimit e uid action =
     andThen (redis_get e (rate_limit_key uid action)) (\<lambda>current.
       let currentCount = (if truthy current then parseInt (value_text (the current)) else Number 0)
       in if ge_number currentCount (Number maxRequests)
          then succeed \<lparr>allowed = False, remaining = Number 0\<rparr>
          else
            let newCount = plus_number currentCount (Number 1)
            in andThen
                 (if currentCount = Number 0
                  then redis_setex e (rate_limit_key uid action) windowSeconds (Text (toString newCount))
                  else redis_set e (rate_limit_key uid action) (Text (toString newCount)))
                 (\<lambda>_. succeed \<lparr>allowed = True,
                                 remaining = minus_number (Number maxRequests) newCount\<rparr>))"

section \<open>ScoreService\<close>

definition MAX_SCORE_INCREMENT :: int where
  "MAX_SCORE_INCREMENT = 1000"

definition score_key :: "string \<Rightarrow> string" where
  "score_key uid = ''user_score:'' @ uid"

definition getCurrentScore :: "env \<Rightarrow> string \<Rightarrow> number io" where
  "getCurrentScore e uid =
     andThen (redis_get e (score_key uid)) (\<lambda>cachedScore.
       case cachedScore of
         Some v \<Rightarrow> succeed (parseInt (value_text v))
       | None \<Rightarrow>
           andThen (db_select_score e uid) (\<lambda>row.
             let score = (case row of Some s \<Rightarrow> s | None \<Rightarrow> 0)
             in andThen (redis_setex e (score_key uid) 300 (Text (toString (Number score))))
                  (\<lambda>_. succeed (Number score))))"

definition getUserRank :: "env \<Rightarrow> string \<Rightarrow> nat option io" where
  "getUserRank e uid =
     andThen (zrank e uid) (\<lambda>r. succeed (case r of Some k \<Rightarrow> Some (k + 1) | None \<Rightarrow> None))"

definition updateScoreCache :: "env \<Rightarrow> string \<Rightarrow> number \<Rightarrow> unit io" where
  "updateScoreCache e uid score = redis_setex e (score_key uid) 300 (Text (toString score))"

definition updateLeaderboard :: "env \<Rightarrow> string \<Rightarrow> number \<Rightarrow> unit io" where
  "updateLeaderboard e uid score = andThen (zadd e score uid) (\<lambda>_. succeed ())"

definition logAuditEntry :: "env \<Rightarrow> AuditLogEntry \<Rightarrow> unit io" where
  "logAuditEntry e entry = catch (db_insert_audit e entry) (\<lambda>_. succeed ())"

definition notify :: "notification \<Rightarrow> unit io" where
  "notify n = (\<lambda>w. (Inr (), w\<lparr>sent := sent w @ [n]\<rparr>))"

text \<open>\<^verbatim>\<open>x || undefined\<close> on a rank: absent when the rank is null or 0.\<close>

definition or_undefined :: "nat option \<Rightarrow> nat option" where
  "or_undefined r = (if r = Some 0 then None else r)"

definition updateScore ::
  "env \<Rightarrow> ScoreUpdateRequest \<Rightarrow> string \<Rightarrow> string \<Rightarrow> ScoreUpdateResponse io" where
  "updateScore e request ip agent =
     catch
       (if scoreIncrement request \<le> 0 \<or> scoreIncrement request > MAX_SCORE_INCREMENT
        then throw (Error (code_string INVALID_SCORE_INCREMENT))
        else
          andThen (getCurrentScore e (userId request)) (\<lambda>current.
          let new = plus_number current (Number (scoreIncrement request)) in
          andThen (db_begin e) (\<lambda>_.
            catch
              (andThen (db_upsert_score e (userId request) new) (\<lambda>_.
               andThen (logAuditEntry e
                 \<lparr>entry_userId = userId request, entry_actionType = actionType request,
                  scoreChange = scoreIncrement request, previousScore = current,
                  entry_newScore = new, ipAddress = ip, userAgent = agent,
                  entry_timestamp = now e, entry_success = True, errorMessage = None\<rparr>) (\<lambda>_.
               andThen (db_commit e) (\<lambda>_.
               andThen (updateScoreCache e (userId request) new) (\<lambda>_.
               andThen (getUserRank e (userId request)) (\<lambda>oldRank.
               andThen (updateLeaderboard e (userId request) new) (\<lambda>_.
               andThen (getUserRank e (userId request)) (\<lambda>rank'.
               andThen (notify (ScoreUpdateNotification (userId request) new oldRank rank'
                                  (scoreIncrement request))) (\<lambda>_.
               andThen
                 (if rank' \<noteq> None \<and> (oldRank = None \<or> rank' \<noteq> oldRank) \<and> the rank' < 10
                  then notify LeaderboardUpdate else succeed ()) (\<lambda>_.
               succeed \<lparr>success = True, newScore = new, newRank = or_undefined rank',
                        message = None\<rparr>))))))))))
              (\<lambda>dbError. andThen (db_rollback e) (\<lambda>_. throw dbError)))))
       (\<lambda>err.
          andThen (getCurrentScore e (userId request)) (\<lambda>previous.
          andThen (logAuditEntry e
            \<lparr>entry_userId = userId request, entry_actionType = actionType request,
             scoreChange = scoreIncrement request, previousScore = previous,
             entry_newScore = Number 0, ipAddress = ip, userAgent = agent,
             entry_timestamp = now e, entry_success = False,
             errorMessage = Some (error_message err)\<rparr>) (\<lambda>_.
          andThen (getCurrentScore e (userId request)) (\<lambda>score.
          succeed \<lparr>success = False, newScore = score, newRank = None,
                   message = Some (error_message err)\<rparr>))))"

section \<open>LeaderboardService\<close>

definition LEADERBOARD_CACHE_TTL :: nat where
  "LEADERBOARD_CACHE_TTL = 30"

definition top_key :: "int \<Rightarrow> string" where
  "top_key limit = ''leaderboard:top'' @ toString (Number limit)"

definition getUsername :: "string \<Rightarrow> string" where
  "getUsername uid = ''User_'' @ take 8 uid"

text \<open>
  The loop of \<^verbatim>\<open>getTopUsers\<close> walks the array two places at a time and reads a user id
  at \<^verbatim>\<open>i\<close> and a score at \<^verbatim>\<open>i + 1\<close>; past the end the array yields
  \<^verbatim>\<open>undefined\<close>. The second argument is the rank \<^verbatim>\<open>i / 2 + 1\<close>.
\<close>

fun read_pairs :: "env \<Rightarrow> nat \<Rightarrow> string list \<Rightarrow> UserScore list" where
  "read_pairs e r [] = []"
| "read_pairs e r [u] =
     [\<lparr>us_userId = u, username = getUsername u, currentScore = parseInt ''undefined'',
       lastUpdated = now e, rank = Some r\<rparr>]"
| "read_pairs e r (u # s # rest) =
     \<lparr>us_userId = u, username = getUsername u, currentScore = parseInt s,
      lastUpdated = now e, rank = Some r\<rparr> # read_pairs e (r + 1) rest"

definition fetch_failed :: exn where
  "fetch_failed = Error ''Failed to fetch leaderboard''"

definition getTopUsers :: "env \<Rightarrow> int \<Rightarrow> LeaderboardResponse io" where
  "getTopUsers e limit =
     catch
       (andThen (redis_get e (top_key limit)) (\<lambda>cachedData.
          case (if truthy cachedData then cachedData else None) of
            Some (Snapshot r) \<Rightarrow> succeed r
          | Some (Text _) \<Rightarrow> throw (Error ''Unexpected token in JSON'')
          | None \<Rightarrow>
              andThen (zrevrange e 0 (limit - 1) True) (\<lambda>topUserIds.
              andThen (zcard e) (\<lambda>total.
              let response = \<lparr>topUsers = read_pairs e 1 topUserIds, lr_lastUpdated = now e,
                               totalUsers = total\<rparr>
              in andThen (redis_setex e (top_key limit) LEADERBOARD_CACHE_TTL (Snapshot response))
                   (\<lambda>_. succeed response)))))
       (\<lambda>_. throw fetch_failed)"

record position =
  pos_rank :: "nat option"
  pos_score :: number
  pos_totalUsers :: nat

definition getUserPosition :: "env \<Rightarrow> string \<Rightarrow> position io" where
  "getUserPosition e uid =
     andThen (zrank e uid) (\<lambda>r.
     andThen (zscore e uid) (\<lambda>scoreStr.
     andThen (zcard e) (\<lambda>total.
     succeed \<lparr>pos_rank = (case r of Some k \<Rightarrow> Some (k + 1) | None \<Rightarrow> None),
              pos_score = (case scoreStr of
                             None \<Rightarrow> Number 0
                           | Some s \<Rightarrow> if s = [] then Number 0 else parseInt s),
              pos_totalUsers = total\<rparr>)))"

definition invalidateLeaderboardCache :: "env \<Rightarrow> unit io" where
  "invalidateLeaderboardCache e =
     andThen (redis_del e ''leaderboard:top10'') (\<lambda>_.
     andThen (redis_del e ''leaderboard:top25'') (\<lambda>_.
     andThen (redis_del e ''leaderboard:top50'') (\<lambda>_. succeed ())))"

definition updateUserScore :: "env \<Rightarrow> string \<Rightarrow> number \<Rightarrow> unit io" where
  "updateUserScore e uid score =
     andThen (zadd e score uid) (\<lambda>_. invalidateLeaderboardCache e)"

definition removeUser :: "env \<Rightarrow> string \<Rightarrow> unit io" where
  "removeUser e uid =
     andThen (redis_del e (score_key uid)) (\<lambda>_. invalidateLeaderboardCache e)"

section \<open>The score route: POST /api/scores/user/:userId\<close>

text \<open>
  The request as Express hands it to the chain. \<open>ip_limited\<close> is the verdict of the
  per-address limiter (express-rate-limit) for this request. The body's
  \<^verbatim>\<open>scoreIncrement\<close> is an integer: the schema refuses anything else.
\<close>

record request =
  param_userId :: string
  body_actionType :: string
  body_scoreIncrement :: int
  body_actionToken :: token
  req_ip :: "string option"
  req_userAgent :: "string option"
  ip_limited :: bool

datatype response =
    ScoreUpdated string number "nat option" int number
  | ErrorJson nat string string

fun status :: "response \<Rightarrow> nat" where
  "status (ScoreUpdated _ _ _ _ _) = 200"
| "status (ErrorJson s _ _) = s"

type_synonym handler = "world \<Rightarrow> response \<times> world"

definition rateLimitMiddleware :: "request \<Rightarrow> handler \<Rightarrow> handler" where
  "rateLimitMiddleware req next =
     (if ip_limited req
      then (\<lambda>w. (ErrorJson 429 ''RATE_LIMIT_EXCEEDED''
                   ''Too many requests from this IP, please try again later.'', w))
      else next)"

definition authMiddleware :: "env \<Rightarrow> request \<Rightarrow> handler \<Rightarrow> handler" where
  "authMiddleware e req next =
     (\<lambda>w. if param_userId req = []
           then (ErrorJson 400 ''MISSING_USER_ID'' ''User ID is required'', w)
           else case validateUser e (param_userId req) w of
                  (Inl _, w') \<Rightarrow>
                    (ErrorJson 500 (code_string INTERNAL_ERROR) ''Authentication error'', w')
                | (Inr isValidUser, w') \<Rightarrow>
                    if \<not> isValidUser
                    then (ErrorJson 401 (code_string UNAUTHORIZED)
                            ''Invalid user or authentication required'', w')
                    else next w')"

definition scoreUpdateSchema :: "request \<Rightarrow> bool" where
  "scoreUpdateSchema req =
     (body_actionType req \<in> set validActionTypes
      \<and> 1 \<le> body_scoreIncrement req \<and> body_scoreIncrement req \<le> 1000
      \<and> body_actionToken req \<noteq> Opaque '''')"

definition validateScoreUpdate :: "request \<Rightarrow> handler \<Rightarrow> handler" where
  "validateScoreUpdate req next =
     (if \<not> scoreUpdateSchema req
      then (\<lambda>w. (ErrorJson 400 ''VALIDATION_ERROR'' ''validation failed'', w))
      else next)"

definition getErrorMessage :: "ErrorCodes \<Rightarrow> string" where
  "getErrorMessage c =
     (case c of
        INVALID_ACTION_TOKEN \<Rightarrow> ''The provided action token is invalid or has already been used''
      | EXPIRED_TOKEN \<Rightarrow> ''The action token has expired''
      | UNAUTHORIZED \<Rightarrow> ''You are not authorized to perform this action''
      | RATE_LIMIT_EXCEEDED \<Rightarrow> ''Too many requests. Please try again later.''
      | INVALID_SCORE_INCREMENT \<Rightarrow> ''Invalid score increment value''
      | USER_NOT_FOUND \<Rightarrow> ''User not found''
      | INTERNAL_ERROR \<Rightarrow> ''Internal server error'')"

definition or_unknown :: "string option \<Rightarrow> string" where
  "or_unknown s = (if s = None \<or> s = Some [] then ''unknown'' else the s)"

definition respond_update ::
  "request \<Rightarrow> rate_check \<Rightarrow> (exn + ScoreUpdateResponse) \<times> world \<Rightarrow> response \<times> world" where
  "respond_update req rateLimitCheck outcome =
     (case outcome of
        (Inl _, w) \<Rightarrow> (ErrorJson 500 (code_string INTERNAL_ERROR) ''Internal server error'', w)
      | (Inr result, w) \<Rightarrow>
          if success result
          then (ScoreUpdated (param_userId req) (newScore result) (newRank result)
                  (body_scoreIncrement req) (remaining rateLimitCheck), w)
          else (ErrorJson 400 ''SCORE_UPDATE_FAILED''
                  (if message result = None \<or> message result = Some []
                   then ''Failed to update score'' else the (message result)), w))"

definition score_handler :: "env \<Rightarrow> request \<Rightarrow> handler" where
  "score_handler e req =
     (\<lambda>w. case validateActionToken e (body_actionToken req) (param_userId req) w of
        (tokenValidation, w1) \<Rightarrow>
          if \<not> valid tokenValidation
          then (ErrorJson 422 (code_string (the (error tokenValidation)))
                  (getErrorMessage (the (error tokenValidation))), w1)
          else
            (case checkRateLimit e (param_userId req) ''score_update'' w1 of
               (Inl _, w2) \<Rightarrow>
                 (ErrorJson 500 (code_string INTERNAL_ERROR) ''Internal server error'', w2)
             | (Inr rateLimitCheck, w2) \<Rightarrow>
                 if \<not> allowed rateLimitCheck
                 then (ErrorJson 429 (code_string RATE_LIMIT_EXCEEDED)
                         ''Rate limit exceeded. Please try again later.'', w2)
                 else
                   respond_update req rateLimitCheck
                     (updateScore e
                        \<lparr>userId = param_userId req, actionType = body_actionType req,
                         scoreIncrement = body_scoreIncrement req,
                         actionToken = body_actionToken req, timestamp = now e\<rparr>
                        (or_unknown (req_ip req)) (or_unknown (req_userAgent req)) w2)))"

definition post_score :: "env \<Rightarrow> request \<Rightarrow> handler" where
  "post_score e req =
     rateLimitMiddleware req (authMiddleware e req (validateScoreUpdate req (score_handler e req)))"

section \<open>Running the services\<close>

text \<open>The world before any request, and an environment in which nothing fails.\<close>

definition world0 :: world where
  "world0 = \<lparr>kv = Map.empty, leaderboard = [], user_scores = Map.empty, audit_log = [],
              tx = None, sent = []\<rparr>"

definition env0 :: "time \<Rightarrow> env" where
  "env0 t = \<lparr>now = t, redis_up = True, db_error = (\<lambda>_. None), jwtSecret = ''your-secret-key''\<rparr>"

text \<open>
  The calls the score pipeline and the read services accept, each made in its own
  environment, and the state a sequence of them leaves behind.
\<close>

datatype call =
    Validate token string
  | RateLimit string string
  | Update ScoreUpdateRequest string string
  | Post request
  | TopUsers int
  | Position string
  | RemoveUser string

fun step :: "env \<times> call \<Rightarrow> world \<Rightarrow> world" where
  "step (e, Validate t uid) w = snd (validateActionToken e t uid w)"
| "step (e, RateLimit uid action) w = snd (checkRateLimit e uid action w)"
| "step (e, Update request ip agent) w = snd (updateScore e request ip agent w)"
| "step (e, Post req) w = snd (post_score e req w)"
| "step (e, TopUsers limit) w = snd (getTopUsers e limit w)"
| "step (e, Position uid) w = snd (getUserPosition e uid w)"
| "step (e, RemoveUser uid) w = snd (removeUser e uid w)"

definition run :: "(env \<times> call) list \<Rightarrow> world \<Rightarrow> world" where
  "run calls w = fold step calls w"

text \<open>
  The same with the leaderboard service's own upsert, \<^verbatim>\<open>updateUserScore\<close>, which
  places a member at any given score.
\<close>

datatype action = Upsert string int | Call call

fun act :: "env \<times> action \<Rightarrow> world \<Rightarrow> world" where
  "act (e, Upsert uid s) w = snd (updateUserScore e uid (Number s) w)"
| "act (e, Call c) w = step (e, c) w"

definition history :: "(env \<times> action) list \<Rightarrow> world \<Rightarrow> world" where
  "history acts w = fold act acts w"

section \<open>What the theorems speak of\<close>

text \<open>The world after a nonce has been marked used at the time of \<open>e\<close>.\<close>

definition mark_used :: "env \<Rightarrow> string \<Rightarrow> world \<Rightarrow> world" where
  "mark_used e nonce w =
     w\<lparr>kv := (kv w)(token_key nonce \<mapsto> (Text ''used'', Some (now e + tokenExpiration)))\<rparr>"

text \<open>The mark on a nonce, with an expiry no earlier than \<open>x\<close>.\<close>

definition nonce_marked :: "string \<Rightarrow> time \<Rightarrow> world \<Rightarrow> bool" where
  "nonce_marked nonce x w =
     (\<exists>x'. kv w (token_key nonce) = Some (Text ''used'', Some x') \<and> x \<le> x')"

text \<open>
  Two ways of saying what a computation may do to the world: it writes no Redis string
  key outside \<open>K\<close>, and it keeps a property of the world once that property holds.
\<close>

definition frame :: "string set \<Rightarrow> 'a io \<Rightarrow> bool" where
  "frame K m = (\<forall>w k. k \<notin> K \<longrightarrow> kv (snd (m w)) k = kv w k)"

definition keeps :: "(world \<Rightarrow> bool) \<Rightarrow> 'a io \<Rightarrow> bool" where
  "keeps I m = (\<forall>w. I w \<longrightarrow> I (snd (m w)))"

text \<open>
  The members placed before \<open>(m, s)\<close> when the sorted set is read from the top (a
  greater score, or the same score and a greater member), and the other members with a
  strictly greater score.
\<close>

definition ahead_of :: "string \<Rightarrow> int \<Rightarrow> (string \<times> int) list \<Rightarrow> (string \<times> int) list" where
  "ahead_of m s zs = filter (\<lambda>(m', s'). s < s' \<or> (s' = s \<and> m < m')) zs"

definition higher_scores :: "string \<Rightarrow> int \<Rightarrow> (string \<times> int) list \<Rightarrow> (string \<times> int) list" where
  "higher_scores m s zs = filter (\<lambda>(m', s'). m' \<noteq> m \<and> s < s') zs"



section \<open>Sample requests and states\<close>

text \<open>One rate-limit check of a user's score updates at each of the given times, in order.\<close>

fun rate_checks :: "string \<Rightarrow> time list \<Rightarrow> world \<Rightarrow> world" where
  "rate_checks uid [] w = w"
| "rate_checks uid (t # ts) w =
     rate_checks uid ts (snd (checkRateLimit (env0 t) uid ''score_update'' w))"

text \<open>
  A well-formed request for 100 points carrying the given token, and a service-level
  update by the given delta.
\<close>

definition score_request :: "string \<Rightarrow> token \<Rightarrow> request" where
  "score_request uid t =
     \<lparr>param_userId = uid, body_actionType = ''GAME_COMPLETE'', body_scoreIncrement = 100,
      body_actionToken = t, req_ip = Some ''10.0.0.1'', req_userAgent = Some ''client'',
      ip_limited = False\<rparr>"


text \<open>
  Three leaderboards: alice alone; alice and bob with equal scores; and a busier one.
\<close>

definition solo_board :: world where
  "solo_board = history [(env0 0, Upsert ''alice'' 100)] world0"

definition tied_board :: world where
  "tied_board = history [(env0 0, Upsert ''alice'' 100), (env0 1, Upsert ''bob'' 100)] world0"

definition busy_board :: world where
  "busy_board =
     history [(env0 0, Upsert ''alice'' 100), (env0 1, Upsert ''bob'' 100),
              (env0 2, Upsert ''carol'' 300), (env0 3, Call (RemoveUser ''bob'')),
              (env0 4, Upsert ''dave'' 50)] world0"


definition limited_world :: world where
  "limited_world = rate_checks ''alice'' [0, 1, 2, 3, 4, 5, 6, 7, 8, 9] world0"

definition fresh_token :: token where
  "fresh_token = generateActionToken (env0 9) ''alice'' ''GAME_COMPLETE'' ''n1''"





section \<open>Decimal strings read back as the number they render\<close>
















section \<open>Unfolding the plumbing\<close>

lemmas io_defs = succeed_def throw_def andThen_def catch_def connected_def
lemmas redis_defs = redis_get_def redis_set_def redis_setex_def redis_del_def live_def truthy_def
  value_text_def
lemmas db_defs = db_query_def db_begin_def db_commit_def db_rollback_def discard_tx_def
  db_upsert_score_def db_insert_audit_def db_select_score_def not_an_integer_def
lemmas number_defs = plus_number_def minus_number_def ge_number_def
lemmas parse_defs = parseInt_def is_ws_def digit_val_def toString_def digit_char_def digits.simps
lemmas rate_defs = checkRateLimit_def rate_limit_key_def maxRequests_def windowSeconds_def
lemmas eval_defs = env0_def world0_def io_defs redis_defs db_defs number_defs parse_defs Let_def

section \<open>The rate limiter\<close>

text \<open>
  C8. Ten requests of one user in the first ten seconds are counted; the limit is 10 per
  60 seconds, so a request after the window has elapsed should be allowed again. It is not:
  the second request rewrote the counter with \<^verbatim>\<open>SET\<close>, which dropped the expiry the
  first request had set, so the counter stays at 10 without a time to live and the request
  at second 70, and the one a day later, are denied (the denial itself changes nothing).
\<close>

theorem checkRateLimit_window_never_reopens:
  "let w = rate_checks ''alice'' [0, 1, 2, 3, 4, 5, 6, 7, 8, 9] world0
   in kv w (rate_limit_key ''alice'' ''score_update'') = Some (Text ''10'', None)
      \<and> checkRateLimit (env0 70) ''alice'' ''score_update'' w
          = (Inr \<lparr>allowed = False, remaining = Number 0\<rparr>, w)
      \<and> checkRateLimit (env0 86400) ''alice'' ''score_update'' w
          = (Inr \<lparr>allowed = False, remaining = Number 0\<rparr>, w)"
  by (simp add: eval_defs rate_defs)

section \<open>Reading the top of the leaderboard\<close>


section \<open>Auditing of rejected requests\<close>

text \<open>
  C1. Every attempted score update should leave exactly one audit entry. A request with a
  forged token is answered 422, and a request of a user who has used up the rate limit is
  answered 429; in both cases the route returns before \<^verbatim>\<open>updateScore\<close> is called and
  the audit log stays empty.
\<close>

theorem rejected_requests_leave_no_audit_entry:
  "(let (r, w) = post_score (env0 0) (score_request ''alice'' (Opaque ''forged'')) world0
    in status r = 422 \<and> audit_log w = [])
   \<and> (let w10 = rate_checks ''alice'' [0, 1, 2, 3, 4, 5, 6, 7, 8, 9] world0;
           t = generateActionToken (env0 9) ''alice'' ''GAME_COMPLETE'' ''n1'';
           (r, w) = post_score (env0 10) (score_request ''alice'' t) w10
       in status r = 429 \<and> audit_log w = [])"
  by code_simp

section \<open>Action tokens\<close>

text \<open>The decision table of \<^verbatim>\<open>validateActionToken\<close>, read off its definition.\<close>


lemma validateActionToken_cases:
  "validateActionToken e t uid w =
     (case t of
        Opaque _ \<Rightarrow> (\<lparr>valid = False, error = Some INVALID_ACTION_TOKEN\<rparr>, w)
      | Jwt key p x \<Rightarrow>
          if key \<noteq> jwtSecret e then (\<lparr>valid = False, error = Some INVALID_ACTION_TOKEN\<rparr>, w)
          else if x \<le> now e then (\<lparr>valid = False, error = Some EXPIRED_TOKEN\<rparr>, w)
          else if tok_userId p \<noteq> uid then (\<lparr>valid = False, error = Some UNAUTHORIZED\<rparr>, w)
          else if \<not> redis_up e then (\<lparr>valid = False, error = Some INVALID_ACTION_TOKEN\<rparr>, w)
          else if truthy (live (now e) (kv w (token_key (tok_nonce p))))
            then (\<lparr>valid = False, error = Some INVALID_ACTION_TOKEN\<rparr>, w)
          else if tok_actionType p \<notin> set validActionTypes
            then (\<lparr>valid = False, error = Some INVALID_ACTION_TOKEN\<rparr>, mark_used e (tok_nonce p) w)
          else (\<lparr>valid = True, error = None\<rparr>, mark_used e (tok_nonce p) w))"
  by (simp add: validateActionToken_def jwt_verify_def mark_used_def io_defs redis_get_def redis_setex_def
       split: token.splits)

subsection \<open>What a computation writes to the Redis string keys\<close>

lemma frame_succeed: "frame K (succeed x)"
  by (simp add: frame_def succeed_def)

lemma frame_throw: "frame K (throw x)"
  by (simp add: frame_def throw_def)

lemma frame_andThen:
  assumes "frame K m" "\<And>x. frame K (f x)"
  shows "frame K (andThen m f)"
  unfolding frame_def andThen_def
proof (intro allI impI)
  fix w k assume k: "k \<notin> K"
  obtain r w' where mw: "m w = (r, w')" by (cases "m w")
  have a: "kv w' k = kv w k" using assms(1) k mw unfolding frame_def by (metis snd_conv)
  show "kv (snd (case m w of (Inl e, w') \<Rightarrow> (Inl e, w') | (Inr x, w') \<Rightarrow> f x w')) k = kv w k"
  proof (cases r)
    case (Inl e)
    with mw a show ?thesis by simp
  next
    case (Inr x)
    have "kv (snd (f x w')) k = kv w' k" using assms(2) k unfolding frame_def by blast
    with mw a Inr show ?thesis by simp
  qed
qed

lemma frame_catch:
  assumes "frame K m" "\<And>x. frame K (h x)"
  shows "frame K (catch m h)"
  unfolding frame_def catch_def
proof (intro allI impI)
  fix w k assume k: "k \<notin> K"
  obtain r w' where mw: "m w = (r, w')" by (cases "m w")
  have a: "kv w' k = kv w k" using assms(1) k mw unfolding frame_def by (metis snd_conv)
  show "kv (snd (case m w of (Inl e, w') \<Rightarrow> h e w' | (Inr x, w') \<Rightarrow> (Inr x, w'))) k = kv w k"
  proof (cases r)
    case (Inr x)
    with mw a show ?thesis by simp
  next
    case (Inl e)
    have "kv (snd (h e w')) k = kv w' k" using assms(2) k unfolding frame_def by blast
    with mw a Inl show ?thesis by simp
  qed
qed

lemma frame_connected: "frame K m \<Longrightarrow> frame K (connected e m)"
  by (simp add: connected_def frame_throw)

lemma frame_if: "frame K a \<Longrightarrow> frame K b \<Longrightarrow> frame K (if c then a else b)"
  by simp

lemma frame_option: "frame K a \<Longrightarrow> (\<And>x. frame K (b x)) \<Longrightarrow> frame K (case v of None \<Rightarrow> a | Some x \<Rightarrow> b x)"
  by (cases v) simp_all

lemma frame_number: "frame K a \<Longrightarrow> (\<And>x. frame K (b x)) \<Longrightarrow> frame K (case v of NaN \<Rightarrow> a | Number x \<Rightarrow> b x)"
  by (cases v) simp_all

lemma frame_redis_get: "frame K (redis_get e k)"
  by (simp add: redis_get_def connected_def frame_def throw_def)

lemma frame_redis_setex: "k \<in> K \<Longrightarrow> frame K (redis_setex e k s v)"
  by (auto simp: redis_setex_def connected_def frame_def throw_def)

lemma frame_redis_set: "k \<in> K \<Longrightarrow> frame K (redis_set e k v)"
  by (auto simp: redis_set_def connected_def frame_def throw_def)

lemma frame_redis_del: "k \<in> K \<Longrightarrow> frame K (redis_del e k)"
  by (auto simp: redis_del_def connected_def frame_def throw_def)

lemma frame_zadd: "frame K (zadd e s m)"
  by (cases s) (simp_all add: zadd_def connected_def frame_def throw_def)

lemma frame_zreads: "frame K (zrank e m)" "frame K (zscore e m)" "frame K (zcard e)"
  "frame K (zrevrange e a b c)"
  by (simp_all add: zrank_def zscore_def zcard_def zrevrange_def connected_def frame_def throw_def Let_def)

lemma frame_db_query: "(\<And>w. kv (snd (f w)) = kv w) \<Longrightarrow> frame K (db_query e q f)"
  by (auto simp: db_query_def frame_def throw_def split: option.splits prod.splits)
     (metis snd_conv)

lemma frame_db: "frame K (db_begin e)" "frame K (db_commit e)" "frame K (db_rollback e)"
  "frame K (db_upsert_score e uid s)" "frame K (db_insert_audit e entry)" "frame K (db_select_score e uid)"
  by (auto simp: db_begin_def db_commit_def db_rollback_def db_upsert_score_def db_insert_audit_def
      db_select_score_def discard_tx_def frame_def throw_def
      intro!: frame_db_query[unfolded frame_def, rule_format] split: option.splits number.splits)

lemma frame_notify: "frame K (notify n)"
  by (simp add: notify_def frame_def)

lemmas frame_rules = frame_succeed frame_throw frame_andThen frame_catch frame_connected frame_if
  frame_option frame_number frame_redis_get frame_redis_setex frame_redis_set frame_redis_del
  frame_zadd frame_zreads frame_db frame_notify

lemma frame_getCurrentScore: "frame {score_key uid} (getCurrentScore e uid)"
  unfolding getCurrentScore_def Let_def by (intro frame_rules) simp

lemma frame_logAuditEntry: "frame K (logAuditEntry e entry)"
  unfolding logAuditEntry_def by (intro frame_rules)

lemma frame_getUserRank: "frame K (getUserRank e uid)"
  unfolding getUserRank_def by (intro frame_rules)

lemma frame_updateScore: "frame {score_key (userId request)} (updateScore e request ip agent)"
  unfolding updateScore_def Let_def updateScoreCache_def updateLeaderboard_def
  by (intro frame_rules frame_getCurrentScore frame_logAuditEntry frame_getUserRank) simp

lemma frame_checkRateLimit: "frame {rate_limit_key uid action} (checkRateLimit e uid action)"
  unfolding checkRateLimit_def Let_def by (intro frame_rules) simp_all

lemma frame_getTopUsers: "frame {top_key limit} (getTopUsers e limit)"
  unfolding getTopUsers_def Let_def
  by (intro frame_rules) (simp_all add: frame_rules split: option.splits rvalue.splits)

lemma frame_getUserPosition: "frame {} (getUserPosition e uid)"
  unfolding getUserPosition_def by (intro frame_rules)

lemma frame_invalidate:
  "frame {''leaderboard:top10'', ''leaderboard:top25'', ''leaderboard:top50''} (invalidateLeaderboardCache e)"
  unfolding invalidateLeaderboardCache_def by (intro frame_rules) simp_all



lemma frame_mono: "frame K m \<Longrightarrow> K \<subseteq> K' \<Longrightarrow> frame K' m"
  unfolding frame_def by blast

lemma frame_removeUser:
  "frame {score_key uid, ''leaderboard:top10'', ''leaderboard:top25'', ''leaderboard:top50''}
     (removeUser e uid)"
  unfolding removeUser_def
  by (intro frame_andThen frame_redis_del frame_mono[OF frame_invalidate]) auto

lemma frameD: "frame K m \<Longrightarrow> k \<notin> K \<Longrightarrow> kv (snd (m w)) k = kv w k"
  unfolding frame_def by blast

lemma token_key_other [simp]:
  "token_key n \<noteq> score_key u" "token_key n \<noteq> rate_limit_key u a" "token_key n \<noteq> top_key l"
  "token_key n \<noteq> ''leaderboard:top10''" "token_key n \<noteq> ''leaderboard:top25''"
  "token_key n \<noteq> ''leaderboard:top50''" "token_key n \<noteq> ''user:'' @ u"
  by (simp_all add: token_key_def score_key_def rate_limit_key_def top_key_def)

lemma token_key_inj [simp]: "token_key n = token_key n' \<longleftrightarrow> n = n'"
  by (simp add: token_key_def)

lemma nonce_marked_cong:
  "kv w' (token_key n) = kv w (token_key n) \<Longrightarrow> nonce_marked n x w \<Longrightarrow> nonce_marked n x w'"
  by (simp add: nonce_marked_def)

lemma validate_world:
  "snd (validateActionToken e t uid w) = w
   \<or> (\<exists>key p y. t = Jwt key p y \<and> \<not> truthy (live (now e) (kv w (token_key (tok_nonce p))))
         \<and> snd (validateActionToken e t uid w) = mark_used e (tok_nonce p) w)"
  by (cases t) (simp_all add: validateActionToken_cases)

lemma marked_is_live:
  assumes "nonce_marked n x w" "\<not> truthy (live t (kv w (token_key n)))"
  shows "x \<le> t"
proof -
  from assms(1) obtain x' where e: "kv w (token_key n) = Some (Text ''used'', Some x')" "x \<le> x'"
    unfolding nonce_marked_def by blast
  from assms(2) e(1) have "x' \<le> t"
    by (simp add: live_def truthy_def split: if_splits)
  with e(2) show ?thesis by simp
qed

lemma validate_keeps_mark:
  assumes "nonce_marked n x w"
  shows "nonce_marked n x (snd (validateActionToken e t uid w))"
  using validate_world[of e t uid w]
proof (elim disjE exE conjE)
  assume "snd (validateActionToken e t uid w) = w"
  with assms show ?thesis by simp
next
  fix key p y
  assume t: "t = Jwt key p y"
    and free: "\<not> truthy (live (now e) (kv w (token_key (tok_nonce p))))"
    and w': "snd (validateActionToken e t uid w) = mark_used e (tok_nonce p) w"
  show ?thesis
  proof (cases "tok_nonce p = n")
    case False
    then have "kv (mark_used e (tok_nonce p) w) (token_key n) = kv w (token_key n)"
      by (simp add: mark_used_def)
    with assms w' show ?thesis by (simp add: nonce_marked_def)
  next
    case True
    with free assms have "x \<le> now e" using marked_is_live by blast
    with True w' show ?thesis by (simp add: nonce_marked_def mark_used_def)
  qed
qed

lemma respond_update_snd: "snd (respond_update req rc out) = snd out"
  by (cases out; cases "fst out") (auto simp: respond_update_def)

lemma score_handler_world:
  "snd (score_handler e req w) \<in>
     {snd (validateActionToken e (body_actionToken req) (param_userId req) w),
      snd (checkRateLimit e (param_userId req) ''score_update''
             (snd (validateActionToken e (body_actionToken req) (param_userId req) w))),
      snd (updateScore e
             \<lparr>userId = param_userId req, actionType = body_actionType req,
              scoreIncrement = body_scoreIncrement req,
              actionToken = body_actionToken req, timestamp = now e\<rparr>
             (or_unknown (req_ip req)) (or_unknown (req_userAgent req))
             (snd (checkRateLimit e (param_userId req) ''score_update''
                (snd (validateActionToken e (body_actionToken req) (param_userId req) w)))))}"
proof -
  obtain v w1 where v: "validateActionToken e (body_actionToken req) (param_userId req) w = (v, w1)"
    by (cases "validateActionToken e (body_actionToken req) (param_userId req) w")
  obtain c w2 where c: "checkRateLimit e (param_userId req) ''score_update'' w1 = (c, w2)"
    by (cases "checkRateLimit e (param_userId req) ''score_update'' w1")
  show ?thesis
    unfolding score_handler_def v
    by (cases c) (simp_all add: c respond_update_snd)
qed

lemma authMiddleware_world:
  "snd (authMiddleware e req next w) = w \<or> authMiddleware e req next w = next w"
  by (simp add: authMiddleware_def validateUser_def checkUserExists_def redis_get_def io_defs)

lemma post_score_world:
  "snd (post_score e req w) = w \<or> snd (post_score e req w) = snd (score_handler e req w)"
proof -
  have "snd (post_score e req w) = w
        \<or> post_score e req w = validateScoreUpdate req (score_handler e req) w"
    using authMiddleware_world[of e req _ w]
    by (auto simp: post_score_def rateLimitMiddleware_def)
  moreover have "snd (validateScoreUpdate req (score_handler e req) w) = w
        \<or> validateScoreUpdate req (score_handler e req) w = score_handler e req w"
    by (simp add: validateScoreUpdate_def)
  ultimately show ?thesis by auto
qed

lemma score_handler_keeps_mark:
  assumes "nonce_marked n x w"
  shows "nonce_marked n x (snd (score_handler e req w))"
proof -
  let ?w1 = "snd (validateActionToken e (body_actionToken req) (param_userId req) w)"
  let ?w2 = "snd (checkRateLimit e (param_userId req) ''score_update'' ?w1)"
  have m1: "nonce_marked n x ?w1" using assms by (rule validate_keeps_mark)
  have m2: "nonce_marked n x ?w2"
    by (rule nonce_marked_cong[OF frameD[OF frame_checkRateLimit] m1]) simp
  have m3: "nonce_marked n x (snd (updateScore e
             \<lparr>userId = param_userId req, actionType = body_actionType req,
              scoreIncrement = body_scoreIncrement req,
              actionToken = body_actionToken req, timestamp = now e\<rparr>
             (or_unknown (req_ip req)) (or_unknown (req_userAgent req)) ?w2))"
    by (rule nonce_marked_cong[OF frameD[OF frame_updateScore] m2]) simp
  from score_handler_world[of e req w] m1 m2 m3 show ?thesis by auto
qed

lemma post_score_keeps_mark:
  assumes "nonce_marked n x w"
  shows "nonce_marked n x (snd (post_score e req w))"
  using post_score_world[of e req w] assms score_handler_keeps_mark[OF assms] by auto

lemma step_keeps_mark:
  assumes "nonce_marked n x w"
  shows "nonce_marked n x (step c w)"
proof (cases c)
  case (Pair e a)
  show ?thesis
  proof (cases a)
    case (Validate t uid)
    with Pair assms show ?thesis by (simp add: validate_keeps_mark)
  next
    case (RateLimit uid action)
    with Pair show ?thesis
      using nonce_marked_cong[OF frameD[OF frame_checkRateLimit] assms] by simp
  next
    case (Update request ip agent)
    with Pair show ?thesis
      using nonce_marked_cong[OF frameD[OF frame_updateScore] assms] by simp
  next
    case (Post req)
    with Pair assms show ?thesis by (simp add: post_score_keeps_mark)
  next
    case (TopUsers limit)
    with Pair show ?thesis
      using nonce_marked_cong[OF frameD[OF frame_getTopUsers] assms] by simp
  next
    case (Position uid)
    with Pair show ?thesis
      using nonce_marked_cong[OF frameD[OF frame_getUserPosition] assms] by simp
  next
    case (RemoveUser uid)
    with Pair show ?thesis
      using nonce_marked_cong[OF frameD[OF frame_removeUser] assms] by simp
  qed
qed

lemma run_keeps_mark: "nonce_marked n x w \<Longrightarrow> nonce_marked n x (run calls w)"
  unfolding run_def by (induction calls arbitrary: w) (simp_all add: step_keeps_mark)

lemma frame_updateUserScore:
  "frame {''leaderboard:top10'', ''leaderboard:top25'', ''leaderboard:top50''}
     (updateUserScore e uid s)"
  unfolding updateUserScore_def by (intro frame_andThen frame_zadd frame_invalidate)

lemma act_keeps_mark:
  assumes "nonce_marked n x w"
  shows "nonce_marked n x (act a w)"
proof (cases a)
  case (Pair e b)
  show ?thesis
  proof (cases b)
    case (Upsert uid s)
    with Pair show ?thesis
      using nonce_marked_cong[OF frameD[OF frame_updateUserScore] assms] by simp
  next
    case (Call c)
    with Pair assms show ?thesis by (simp add: step_keeps_mark)
  qed
qed

lemma history_keeps_mark: "nonce_marked n x w \<Longrightarrow> nonce_marked n x (history acts w)"
  unfolding history_def by (induction acts arbitrary: w) (simp_all add: act_keeps_mark)








text \<open>
  C2 as stated fails: after a token has been accepted, every later validation of it within
  its validity window should be rejected with the already-used code
  \<^verbatim>\<open>INVALID_ACTION_TOKEN\<close>. Alice's token is accepted at second 10; presented for bob
  one second later it is rejected with \<^verbatim>\<open>UNAUTHORIZED\<close>, because the actor check
  comes before the replay check.
\<close>

theorem used_token_other_actor:
  "valid (fst (validateActionToken (env0 10) fresh_token ''alice'' world0))
   \<and> fst (validateActionToken (env0 11) fresh_token ''bob''
            (snd (validateActionToken (env0 10) fresh_token ''alice'' world0)))
       = \<lparr>valid = False, error = Some UNAUTHORIZED\<rparr>"
  by (simp add: validateActionToken_cases fresh_token_def generateActionToken_def env0_def world0_def
        tokenExpiration_def validActionTypes_def live_def truthy_def)

text \<open>
  C2, amended. Take a token issued by \<^verbatim>\<open>generateActionToken\<close> and accepted once.
  After any sequence of pipeline, read and leaderboard calls, made at any times, every
  later validation
  of that token is rejected: within the validity window with \<^verbatim>\<open>INVALID_ACTION_TOKEN\<close>
  (already used) when it is presented for the actor it is bound to and with
  \<^verbatim>\<open>UNAUTHORIZED\<close> when it is presented for another actor, and as expired once the
  window is over.
\<close>

theorem used_token_stays_rejected:
  assumes issued: "t = generateActionToken e0 uid action nonce" "now e0 \<le> now e"
    and accepted: "validateActionToken e t uid w = (r, w1)" "valid r"
    and later: "now e \<le> now e'" "jwtSecret e' = jwtSecret e"
  shows "fst (validateActionToken e' t uid' (history acts w1))
           = \<lparr>valid = False,
              error = Some (if now e0 + tokenExpiration \<le> now e' then EXPIRED_TOKEN
                            else if uid' \<noteq> uid then UNAUTHORIZED
                            else INVALID_ACTION_TOKEN)\<rparr>"
proof -
  let ?p = "\<lparr>tok_userId = uid, tok_actionType = action, tok_timestamp = now e0 * 1000,
             tok_nonce = nonce\<rparr>"
  have t: "t = Jwt (jwtSecret e0) ?p (now e0 + tokenExpiration)"
    using issued(1) by (simp add: generateActionToken_def)
  from accepted have acc: "jwtSecret e0 = jwtSecret e \<and> w1 = mark_used e nonce w"
    unfolding t by (auto simp: validateActionToken_cases split: if_splits)
  then have "nonce_marked nonce (now e + tokenExpiration) w1"
    by (simp add: nonce_marked_def mark_used_def)
  then have "nonce_marked nonce (now e + tokenExpiration) (history acts w1)"
    by (rule history_keeps_mark)
  then obtain x' where x': "kv (history acts w1) (token_key nonce) = Some (Text ''used'', Some x')"
    "now e + tokenExpiration \<le> x'"
    unfolding nonce_marked_def by blast
  have "now e' < now e0 + tokenExpiration \<Longrightarrow> now e' < x'"
    using issued(2) x'(2) by simp
  then show ?thesis
    unfolding t using acc later(2) x'(1)
    by (simp add: validateActionToken_cases live_def truthy_def)
qed

theorem used_token_stays_rejected_witness:
  "fresh_token = generateActionToken (env0 9) ''alice'' ''GAME_COMPLETE'' ''n1''
   \<and> now (env0 9) \<le> now (env0 10)
   \<and> valid (fst (validateActionToken (env0 10) fresh_token ''alice'' world0))
   \<and> now (env0 10) \<le> now (env0 100) \<and> jwtSecret (env0 100) = jwtSecret (env0 10)
   \<and> fst (validateActionToken (env0 100) fresh_token ''alice''
        (history [(env0 20, Call (RateLimit ''alice'' ''score_update'')),
                  (env0 30, Upsert ''bob'' 5), (env0 40, Call (TopUsers 10))]
          (snd (validateActionToken (env0 10) fresh_token ''alice'' world0))))
       = \<lparr>valid = False, error = Some INVALID_ACTION_TOKEN\<rparr>"
proof -
  have v: "valid (fst (validateActionToken (env0 10) fresh_token ''alice'' world0))"
    by (simp add: validateActionToken_cases fresh_token_def generateActionToken_def env0_def world0_def
        tokenExpiration_def validActionTypes_def live_def truthy_def)
  have n: "now (env0 9) \<le> now (env0 10)" "now (env0 10) \<le> now (env0 100)"
    "jwtSecret (env0 100) = jwtSecret (env0 10)"
    by (simp_all add: env0_def)
  from used_token_stays_rejected[OF fresh_token_def n(1) surjective_pairing v n(2,3),
      of "''alice''" "[(env0 20, Call (RateLimit ''alice'' ''score_update'')),
                      (env0 30, Upsert ''bob'' 5), (env0 40, Call (TopUsers 10))]"]
  show ?thesis using v n by (simp add: fresh_token_def env0_def tokenExpiration_def)
qed


section \<open>The snapshot cache after a score update\<close>




section \<open>The order of the checks on the score route\<close>

lemma rate_limit_key_other [simp]:
  "rate_limit_key u a \<noteq> token_key n" "rate_limit_key u a \<noteq> score_key u'"
  by (simp_all add: token_key_def score_key_def rate_limit_key_def)

lemma validate_fields:
  "user_scores (snd (validateActionToken e t uid w)) = user_scores w"
  "leaderboard (snd (validateActionToken e t uid w)) = leaderboard w"
  "audit_log (snd (validateActionToken e t uid w)) = audit_log w"
  "kv (snd (validateActionToken e t uid w)) (rate_limit_key u a) = kv w (rate_limit_key u a)"
  using validate_world[of e t uid w] by (auto simp: mark_used_def)

lemma valid_marks:
  assumes "validateActionToken e t uid w = (v, w1)" "valid v"
  shows "\<exists>key p y. t = Jwt key p y \<and> w1 = mark_used e (tok_nonce p) w
           \<and> \<not> truthy (live (now e) (kv w (token_key (tok_nonce p))))"
  using assms by (cases t) (auto simp: validateActionToken_cases split: if_splits)

lemma checkRateLimit_denied:
  assumes "checkRateLimit e uid action w = (Inr c, w')" "\<not> allowed c"
  shows "w' = w"
  using assms
  by (auto simp: checkRateLimit_def redis_get_def redis_set_def redis_setex_def io_defs Let_def
      split: if_splits)

lemma passes_front:
  assumes "\<not> ip_limited req" "redis_up e" "3 \<le> length (param_userId req)"
  shows "post_score e req w = validateScoreUpdate req (score_handler e req) w"
  using assms
  by (auto simp: post_score_def rateLimitMiddleware_def authMiddleware_def validateUser_def
      checkUserExists_def redis_get_def io_defs)

text \<open>
  C3 as stated fails: a rate-limited request should be rejected without consuming its
  token. Alice has used up her ten requests; her next request, with a fresh and valid
  token, is answered 429, and the token's nonce, unused before, is now marked used: the
  route validates the token before it asks the rate limiter.
\<close>

theorem rate_limited_request_consumes_token:
  "status (fst (post_score (env0 10) (score_request ''alice'' fresh_token) limited_world)) = 429
   \<and> kv limited_world (token_key ''n1'') = None
   \<and> kv (snd (post_score (env0 10) (score_request ''alice'' fresh_token) limited_world))
        (token_key ''n1'') = Some (Text ''used'', Some 310)"
  by code_simp

text \<open>
  C3, amended. For a request that passes the per-address limiter and the user check, the
  route checks (a) the request body, in particular that the delta is between 1 and 1000,
  then (c) the action token, then (b) the per-actor rate limiter, and stops at the first
  failure. An out-of-bounds delta is answered 400 and changes nothing: neither the token
  nor the rate-limit count is consumed. A rejected token is answered 422 and leaves the
  rate-limit count, the scores and the leaderboard as they were. A request denied by the
  rate limiter is answered 429 with the scores and the leaderboard untouched, but its
  token has been consumed by then.
\<close>

theorem route_checks_in_order:
  assumes front: "\<not> ip_limited req" "redis_up e" "3 \<le> length (param_userId req)"
    and v: "validateActionToken e (body_actionToken req) (param_userId req) w = (v, w1)"
    and c: "checkRateLimit e (param_userId req) ''score_update'' w1 = (c, w2)"
    and p: "post_score e req w = (r, w')"
  shows "(body_scoreIncrement req < 1 \<or> 1000 < body_scoreIncrement req
            \<longrightarrow> status r = 400 \<and> w' = w)
       \<and> (scoreUpdateSchema req \<and> \<not> valid v
            \<longrightarrow> status r = 422 \<and> w' = w1
                \<and> kv w' (rate_limit_key (param_userId req) ''score_update'')
                     = kv w (rate_limit_key (param_userId req) ''score_update'')
                \<and> user_scores w' = user_scores w \<and> leaderboard w' = leaderboard w)
       \<and> (scoreUpdateSchema req \<and> valid v \<and> (\<exists>d. c = Inr d \<and> \<not> allowed d)
            \<longrightarrow> status r = 429 \<and> w' = w1 \<and> kv w1 \<noteq> kv w
                \<and> user_scores w' = user_scores w \<and> leaderboard w' = leaderboard w)"
proof -
  have p': "validateScoreUpdate req (score_handler e req) w = (r, w')"
    using passes_front[OF front] p by simp
  have f: "user_scores w1 = user_scores w" "leaderboard w1 = leaderboard w"
    "kv w1 (rate_limit_key (param_userId req) ''score_update'')
       = kv w (rate_limit_key (param_userId req) ''score_update'')"
    using validate_fields[of e "body_actionToken req" "param_userId req" w] v by simp_all
  have a: "body_scoreIncrement req < 1 \<or> 1000 < body_scoreIncrement req
            \<longrightarrow> status r = 400 \<and> w' = w"
    using p' by (auto simp: validateScoreUpdate_def scoreUpdateSchema_def)
  have b: "scoreUpdateSchema req \<and> \<not> valid v \<longrightarrow> status r = 422 \<and> w' = w1"
    using p' v by (auto simp: validateScoreUpdate_def score_handler_def)
  have c': "scoreUpdateSchema req \<and> valid v \<and> (\<exists>d. c = Inr d \<and> \<not> allowed d)
            \<longrightarrow> status r = 429 \<and> w' = w2 \<and> w2 = w1"
    using p' v c checkRateLimit_denied[of e "param_userId req" "''score_update''" w1 _ w2]
    by (auto simp: validateScoreUpdate_def score_handler_def)
  have m: "valid v \<longrightarrow> kv w1 \<noteq> kv w"
  proof
    assume "valid v"
    with valid_marks[OF v]
    obtain key p y where t: "body_actionToken req = Jwt key p y" "w1 = mark_used e (tok_nonce p) w"
      and "\<not> truthy (live (now e) (kv w (token_key (tok_nonce p))))"
      by blast
    then have "kv w (token_key (tok_nonce p)) \<noteq> Some (Text ''used'', Some (now e + tokenExpiration))"
      by (auto simp: live_def truthy_def tokenExpiration_def)
    then show "kv w1 \<noteq> kv w"
      unfolding t(2) mark_used_def by (auto simp: fun_eq_iff)
  qed
  from a b c' m f show ?thesis by auto
qed


theorem route_checks_in_order_witness:
  "\<not> ip_limited (score_request ''alice'' fresh_token) \<and> redis_up (env0 10)
   \<and> 3 \<le> length (param_userId (score_request ''alice'' fresh_token))
   \<and> status (fst (post_score (env0 10)
         ((score_request ''alice'' fresh_token)\<lparr>body_scoreIncrement := 5000\<rparr>) world0)) = 400
   \<and> snd (post_score (env0 10)
         ((score_request ''alice'' fresh_token)\<lparr>body_scoreIncrement := 5000\<rparr>) world0) = world0
   \<and> scoreUpdateSchema (score_request ''alice'' (Opaque ''forged''))
   \<and> status (fst (post_score (env0 10) (score_request ''alice'' (Opaque ''forged'')) world0)) = 422
   \<and> valid (fst (validateActionToken (env0 10) fresh_token ''alice'' limited_world))
   \<and> status (fst (post_score (env0 10) (score_request ''alice'' fresh_token) limited_world)) = 429
   \<and> snd (post_score (env0 10) (score_request ''alice'' fresh_token) limited_world)
       = snd (validateActionToken (env0 10) fresh_token ''alice'' limited_world)"
proof -
  let ?over = "(score_request ''alice'' fresh_token)\<lparr>body_scoreIncrement := 5000\<rparr>"
  let ?forged = "score_request ''alice'' (Opaque ''forged'')"
  let ?good = "score_request ''alice'' fresh_token"
  have front: "\<not> ip_limited ?good" "redis_up (env0 10)" "3 \<le> length (param_userId ?good)"
    "\<not> ip_limited ?over" "3 \<le> length (param_userId ?over)"
    "\<not> ip_limited ?forged" "3 \<le> length (param_userId ?forged)"
    by (simp_all add: score_request_def env0_def)
  have fields: "param_userId ?good = ''alice''" "body_actionToken ?good = fresh_token"
    "param_userId ?forged = ''alice''" "body_actionToken ?forged = Opaque ''forged''"
    "body_scoreIncrement ?over = 5000"
    by (simp_all add: score_request_def)
  have schema: "scoreUpdateSchema ?forged" "scoreUpdateSchema ?good"
    by (simp_all add: scoreUpdateSchema_def score_request_def validActionTypes_def fresh_token_def
          generateActionToken_def)
  have bad: "\<not> valid (fst (validateActionToken (env0 10) (Opaque ''forged'') ''alice'' world0))"
    by (simp add: validateActionToken_cases)
  have ok: "valid (fst (validateActionToken (env0 10) fresh_token ''alice'' limited_world))"
    by code_simp
  have denied: "fst (checkRateLimit (env0 10) ''alice'' ''score_update''
                  (snd (validateActionToken (env0 10) fresh_token ''alice'' limited_world)))
                = Inr \<lparr>allowed = False, remaining = Number 0\<rparr>"
    by code_simp
  have a: "status (fst (post_score (env0 10) ?over world0)) = 400
           \<and> snd (post_score (env0 10) ?over world0) = world0"
    using route_checks_in_order[OF front(4) front(2) front(5) surjective_pairing
            surjective_pairing surjective_pairing, of world0] fields
    by simp
  have b: "status (fst (post_score (env0 10) ?forged world0)) = 422"
    using route_checks_in_order[OF front(6) front(2) front(7) surjective_pairing
            surjective_pairing surjective_pairing, of world0] fields schema bad
    by simp
  have c: "status (fst (post_score (env0 10) ?good limited_world)) = 429
           \<and> snd (post_score (env0 10) ?good limited_world)
               = snd (validateActionToken (env0 10) fresh_token ''alice'' limited_world)"
    using route_checks_in_order[OF front(1) front(2) front(3) surjective_pairing
            surjective_pairing surjective_pairing, of limited_world] fields schema ok denied
    by simp
  from front schema ok a b c show ?thesis by blast
qed


section \<open>Scores stay non-negative\<close>

lemma keeps_succeed: "keeps I (succeed x)"
  by (simp add: keeps_def succeed_def)

lemma keeps_throw: "keeps I (throw x)"
  by (simp add: keeps_def throw_def)

lemma keeps_andThen_val:
  assumes "keeps I m" "\<And>w x w'. I w \<Longrightarrow> m w = (Inr x, w') \<Longrightarrow> P x" "\<And>x. P x \<Longrightarrow> keeps I (f x)"
  shows "keeps I (andThen m f)"
  unfolding keeps_def andThen_def
proof (intro allI impI)
  fix w assume i: "I w"
  obtain r w' where mw: "m w = (r, w')" by (cases "m w")
  have a: "I w'" using assms(1) i mw unfolding keeps_def by (metis snd_conv)
  show "I (snd (case m w of (Inl e, w') \<Rightarrow> (Inl e, w') | (Inr x, w') \<Rightarrow> f x w'))"
  proof (cases r)
    case (Inl e)
    with mw a show ?thesis by simp
  next
    case (Inr x)
    have "P x" using assms(2) i mw Inr by blast
    then have "I (snd (f x w'))" using assms(3) a unfolding keeps_def by blast
    with mw Inr show ?thesis by simp
  qed
qed

lemma keeps_andThen:
  assumes "keeps I m" "\<And>x. keeps I (f x)"
  shows "keeps I (andThen m f)"
  by (rule keeps_andThen_val[where P = "\<lambda>_. True"]) (simp_all add: assms)

lemma keeps_catch:
  assumes "keeps I m" "\<And>x. keeps I (h x)"
  shows "keeps I (catch m h)"
  unfolding keeps_def catch_def
proof (intro allI impI)
  fix w assume i: "I w"
  obtain r w' where mw: "m w = (r, w')" by (cases "m w")
  have a: "I w'" using assms(1) i mw unfolding keeps_def by (metis snd_conv)
  show "I (snd (case m w of (Inl e, w') \<Rightarrow> h e w' | (Inr x, w') \<Rightarrow> (Inr x, w')))"
  proof (cases r)
    case (Inr x)
    with mw a show ?thesis by simp
  next
    case (Inl e)
    have "I (snd (h e w'))" using assms(2) a unfolding keeps_def by blast
    with mw Inl show ?thesis by simp
  qed
qed

lemma keeps_if: "(c \<Longrightarrow> keeps I a) \<Longrightarrow> (\<not> c \<Longrightarrow> keeps I b) \<Longrightarrow> keeps I (if c then a else b)"
  by simp

lemma keeps_option:
  "keeps I a \<Longrightarrow> (\<And>x. keeps I (b x)) \<Longrightarrow> keeps I (case v of None \<Rightarrow> a | Some x \<Rightarrow> b x)"
  by (cases v) simp_all

lemma keepsD: "keeps I m \<Longrightarrow> I w \<Longrightarrow> I (snd (m w))"
  unfolding keeps_def by blast

lemma score_key_other [simp]:
  "score_key u \<noteq> token_key n" "score_key u \<noteq> rate_limit_key u' a" "score_key u \<noteq> top_key l"
  "score_key u \<noteq> ''leaderboard:top10''" "score_key u \<noteq> ''leaderboard:top25''"
  "score_key u \<noteq> ''leaderboard:top50''"
  by (simp_all add: token_key_def score_key_def rate_limit_key_def top_key_def)

lemma score_key_inj [simp]: "score_key u = score_key u' \<longleftrightarrow> u = u'"
  by (simp add: score_key_def)













































section \<open>A failed persistence\<close>








section \<open>Ranks in the sorted set\<close>


lemma inj_zkey: "inj zkey"
  by (auto simp: inj_on_def zkey_def)

lemma index_of_desc:
  assumes "sorted_wrt (\<lambda>a b. zkey b < zkey a) ys" "(m, s) \<in> set ys" "distinct (map fst ys)"
  shows "index_of m (map fst ys) = Some (length (filter (\<lambda>y. zkey (m, s) < zkey y) ys))"
  using assms
proof (induction ys)
  case Nil
  then show ?case by simp
next
  case (Cons y ys)
  show ?case
  proof (cases "fst y = m")
    case True
    with Cons.prems have y: "y = (m, s)"
      by (cases y) (auto simp: rev_image_eqI)
    from Cons.prems(1) have "\<forall>b\<in>set ys. zkey b < zkey y" by simp
    then have "\<forall>b\<in>set ys. \<not> zkey y < zkey b" using less_asym by blast
    then have "filter (\<lambda>b. zkey (m, s) < zkey b) ys = []"
      unfolding y by (simp add: filter_empty_conv)
    with y show ?thesis by simp
  next
    case False
    with Cons.prems have mem: "(m, s) \<in> set ys" by auto
    with Cons.prems(1) have "zkey (m, s) < zkey y" by auto
    moreover have "index_of m (map fst ys) = Some (length (filter (\<lambda>y. zkey (m, s) < zkey y) ys))"
      using Cons.IH Cons.prems mem by simp
    ultimately show ?thesis using False by simp
  qed
qed

lemma distinct_members: "distinct (map fst zs) \<Longrightarrow> distinct zs"
  by (simp add: distinct_map)

lemma zset_desc_sorted:
  assumes "distinct (map fst zs)"
  shows "sorted_wrt (\<lambda>a b. zkey b < zkey a) (zset_desc zs)"
proof -
  have d: "distinct zs" using assms by (rule distinct_members)
  have "distinct (map zkey (sort_key zkey zs))"
    using d by (simp add: distinct_map inj_on_subset[OF inj_zkey])
  moreover have "sorted (map zkey (sort_key zkey zs))" by (rule sorted_sort_key)
  ultimately have "sorted_wrt (<) (map zkey (sort_key zkey zs))"
    by (simp add: strict_sorted_iff)
  then have "sorted_wrt (\<lambda>a b. zkey a < zkey b) (sort_key zkey zs)"
    by (simp add: sorted_wrt_map)
  then show ?thesis
    unfolding zset_desc_def by (simp add: sorted_wrt_rev)
qed

lemma zset_desc_set: "set (zset_desc zs) = set zs"
  by (simp add: zset_desc_def)

lemma zset_desc_distinct: "distinct (map fst zs) \<Longrightarrow> distinct (map fst (zset_desc zs))"
  by (simp add: zset_desc_def distinct_map inj_on_def)

lemma zkey_less: "zkey (m, s) < zkey (m', s') \<longleftrightarrow> s < s' \<or> (s' = s \<and> m < m')"
  by (auto simp: zkey_def less_prod_def less_le)

lemma length_filter_perm:
  assumes "distinct xs" "distinct ys" "set xs = set ys"
  shows "length (filter P xs) = length (filter P ys)"
  using assms by (simp add: distinct_length_filter)

lemma zrank_index:
  assumes "distinct (map fst zs)" "(m, s) \<in> set zs"
  shows "index_of m (map fst (zset_desc zs)) = Some (length (ahead_of m s zs))"
proof -
  have "index_of m (map fst (zset_desc zs))
      = Some (length (filter (\<lambda>y. zkey (m, s) < zkey y) (zset_desc zs)))"
    using assms by (intro index_of_desc zset_desc_sorted zset_desc_distinct) (simp_all add: zset_desc_set)
  also have "length (filter (\<lambda>y. zkey (m, s) < zkey y) (zset_desc zs))
      = length (filter (\<lambda>y. zkey (m, s) < zkey y) zs)"
    using assms(1) by (intro length_filter_perm) (auto simp: zset_desc_set zset_desc_def dest: distinct_members)
  also have "(\<lambda>y. zkey (m, s) < zkey y) = (\<lambda>(m', s'). s < s' \<or> (s' = s \<and> m < m'))"
    by (auto simp: fun_eq_iff zkey_less)
  finally show ?thesis by (simp add: ahead_of_def)
qed

lemma ahead_no_ties:
  assumes "distinct (map fst zs)" "(m, s) \<in> set zs" "\<forall>(m', s')\<in>set zs. s' = s \<longrightarrow> m' = m"
  shows "ahead_of m s zs = higher_scores m s zs"
  unfolding ahead_of_def higher_scores_def
  using assms by (intro filter_cong) (auto dest: eq_key_imp_eq_value)

lemma zadd_keeps_distinct:
  "keeps (\<lambda>w. distinct (map fst (leaderboard w))) (zadd e score m)"
  by (cases score) (auto simp: keeps_def zadd_def io_defs distinct_map_filter)

text \<open>Only \<^verbatim>\<open>ZADD\<close> writes to the sorted set.\<close>

lemma board_untouched:
  "keeps (\<lambda>w. P (leaderboard w)) (redis_get e k)"
  "keeps (\<lambda>w. P (leaderboard w)) (redis_setex e k s v)"
  "keeps (\<lambda>w. P (leaderboard w)) (redis_set e k v)"
  "keeps (\<lambda>w. P (leaderboard w)) (redis_del e k)"
  "keeps (\<lambda>w. P (leaderboard w)) (zrank e m)"
  "keeps (\<lambda>w. P (leaderboard w)) (zscore e m)"
  "keeps (\<lambda>w. P (leaderboard w)) (zcard e)"
  "keeps (\<lambda>w. P (leaderboard w)) (zrevrange e a b c)"
  "keeps (\<lambda>w. P (leaderboard w)) (notify n)"
  by (simp_all add: keeps_def redis_get_def redis_setex_def redis_set_def redis_del_def zrank_def
        zscore_def zcard_def zrevrange_def notify_def connected_def throw_def Let_def)

lemma board_untouched_db:
  "keeps (\<lambda>w. P (leaderboard w)) (db_begin e)"
  "keeps (\<lambda>w. P (leaderboard w)) (db_commit e)"
  "keeps (\<lambda>w. P (leaderboard w)) (db_rollback e)"
  "keeps (\<lambda>w. P (leaderboard w)) (db_upsert_score e u sc)"
  "keeps (\<lambda>w. P (leaderboard w)) (db_insert_audit e entry)"
  "keeps (\<lambda>w. P (leaderboard w)) (db_select_score e u)"
  by (auto simp: keeps_def db_defs throw_def split: option.splits number.splits)

lemmas board_rules = keeps_andThen keeps_catch keeps_if keeps_option keeps_succeed keeps_throw
  board_untouched board_untouched_db zadd_keeps_distinct

lemma distinct_updateScore:
  "keeps (\<lambda>w. distinct (map fst (leaderboard w))) (updateScore e request ip agent)"
  unfolding updateScore_def Let_def updateLeaderboard_def updateScoreCache_def getCurrentScore_def
    logAuditEntry_def getUserRank_def
  by (intro board_rules)

lemma distinct_checkRateLimit:
  "keeps (\<lambda>w. distinct (map fst (leaderboard w))) (checkRateLimit e uid action)"
  unfolding checkRateLimit_def Let_def by (intro board_rules)

lemma distinct_getTopUsers:
  "keeps (\<lambda>w. distinct (map fst (leaderboard w))) (getTopUsers e limit)"
  unfolding getTopUsers_def Let_def
  apply (intro keeps_catch keeps_andThen board_untouched keeps_throw)
  apply (simp split: option.splits rvalue.splits)
  apply (intro conjI allI impI board_rules)
  done

lemma distinct_getUserPosition:
  "keeps (\<lambda>w. distinct (map fst (leaderboard w))) (getUserPosition e uid)"
  unfolding getUserPosition_def by (intro board_rules)

lemma distinct_removeUser:
  "keeps (\<lambda>w. distinct (map fst (leaderboard w))) (removeUser e uid)"
  unfolding removeUser_def invalidateLeaderboardCache_def by (intro board_rules)

lemma distinct_updateUserScore:
  "keeps (\<lambda>w. distinct (map fst (leaderboard w))) (updateUserScore e uid s)"
  unfolding updateUserScore_def invalidateLeaderboardCache_def by (intro board_rules)

lemma distinct_validate:
  "leaderboard (snd (validateActionToken e t uid w)) = leaderboard w"
  using validate_world[of e t uid w] by (auto simp: mark_used_def)

lemma distinct_post_score:
  assumes "distinct (map fst (leaderboard w))"
  shows "distinct (map fst (leaderboard (snd (post_score e req w))))"
proof -
  let ?w1 = "snd (validateActionToken e (body_actionToken req) (param_userId req) w)"
  have d1: "distinct (map fst (leaderboard ?w1))"
    using assms by (simp add: distinct_validate)
  have d2: "distinct (map fst (leaderboard
              (snd (checkRateLimit e (param_userId req) ''score_update'' ?w1))))"
    using keepsD[OF distinct_checkRateLimit d1] .
  have d3: "distinct (map fst (leaderboard
              (snd (updateScore e
                 \<lparr>userId = param_userId req, actionType = body_actionType req,
                  scoreIncrement = body_scoreIncrement req,
                  actionToken = body_actionToken req, timestamp = now e\<rparr>
                 (or_unknown (req_ip req)) (or_unknown (req_userAgent req))
                 (snd (checkRateLimit e (param_userId req) ''score_update'' ?w1))))))"
    using keepsD[OF distinct_updateScore d2] .
  from score_handler_world[of e req w] d1 d2 d3
  have "distinct (map fst (leaderboard (snd (score_handler e req w))))" by auto
  with post_score_world[of e req w] assms show ?thesis by auto
qed

lemma distinct_act:
  assumes "distinct (map fst (leaderboard w))"
  shows "distinct (map fst (leaderboard (act a w)))"
proof (cases a)
  case (Pair e b)
  show ?thesis
  proof (cases b)
    case (Upsert uid s)
    with Pair show ?thesis using keepsD[OF distinct_updateUserScore assms] by simp
  next
    case (Call c)
    show ?thesis
      unfolding Pair Call using assms
      by (cases c)
         (simp_all add: distinct_validate distinct_post_score
            keepsD[OF distinct_checkRateLimit] keepsD[OF distinct_updateScore]
            keepsD[OF distinct_getTopUsers] keepsD[OF distinct_getUserPosition]
            keepsD[OF distinct_removeUser])
  qed
qed

lemma distinct_history:
  "distinct (map fst (leaderboard w)) \<Longrightarrow> distinct (map fst (leaderboard (history acts w)))"
  unfolding history_def by (induction acts arbitrary: w) (simp_all add: distinct_act)

text \<open>
  C5 as stated fails: the rank is meant to be the number of other actors with a strictly
  greater score, counted from 0. Alone on the leaderboard alice is given rank 1, with no
  actor above her; tied with bob at 100 points she is given rank 2, again with no actor
  whose score is strictly greater.
\<close>

theorem rank_not_count_of_higher_scores:
  "fst (getUserRank (env0 2) ''alice'' solo_board) = Inr (Some 1)
   \<and> higher_scores ''alice'' 100 (leaderboard solo_board) = []
   \<and> fst (getUserRank (env0 2) ''alice'' tied_board) = Inr (Some 2)
   \<and> map_sum id pos_rank (fst (getUserPosition (env0 2) ''alice'' tied_board)) = Inr (Some 2)
   \<and> higher_scores ''alice'' 100 (leaderboard tied_board) = []"
  by code_simp

text \<open>
  C5, amended. In every state reached from the empty system by upserts, removals and any
  other calls, and for every actor on the leaderboard, \<^verbatim>\<open>getUserRank\<close> and
  \<^verbatim>\<open>getUserPosition\<close> return a rank counted from 1: one plus the number of members
  placed before the actor when the set is read from the top, that is, those with a
  strictly greater score or with the same score and a greater member id. When no other
  member has the actor's score, this is one plus the number of other actors with a
  strictly greater score.
\<close>

theorem rank_is_one_plus_members_ahead:
  assumes "redis_up e" and "(m, s) \<in> set (leaderboard (history acts world0))"
  shows "fst (getUserRank e m (history acts world0))
           = Inr (Some (length (ahead_of m s (leaderboard (history acts world0))) + 1))
       \<and> map_sum id pos_rank (fst (getUserPosition e m (history acts world0)))
           = Inr (Some (length (ahead_of m s (leaderboard (history acts world0))) + 1))
       \<and> ((\<forall>(m', s')\<in>set (leaderboard (history acts world0)). s' = s \<longrightarrow> m' = m)
            \<longrightarrow> ahead_of m s (leaderboard (history acts world0))
                = higher_scores m s (leaderboard (history acts world0)))"
proof -
  let ?w = "history acts world0"
  have d: "distinct (map fst (leaderboard ?w))"
    by (rule distinct_history) (simp add: world0_def)
  have idx: "index_of m (map fst (zset_desc (leaderboard ?w)))
               = Some (length (ahead_of m s (leaderboard ?w)))"
    using d assms(2) by (rule zrank_index)
  have "fst (getUserRank e m ?w) = Inr (Some (length (ahead_of m s (leaderboard ?w)) + 1))"
    using assms(1) idx by (simp add: getUserRank_def zrank_def io_defs)
  moreover have "map_sum id pos_rank (fst (getUserPosition e m ?w))
                   = Inr (Some (length (ahead_of m s (leaderboard ?w)) + 1))"
    using assms(1) idx
    by (simp add: getUserPosition_def zrank_def zscore_def zcard_def io_defs)
  moreover have "(\<forall>(m', s')\<in>set (leaderboard ?w). s' = s \<longrightarrow> m' = m)
                   \<longrightarrow> ahead_of m s (leaderboard ?w) = higher_scores m s (leaderboard ?w)"
    using ahead_no_ties[OF d assms(2)] by blast
  ultimately show ?thesis by blast
qed

theorem rank_is_one_plus_members_ahead_witness:
  "redis_up (env0 9) \<and> (''alice'', 100) \<in> set (leaderboard busy_board)
   \<and> fst (getUserRank (env0 9) ''alice'' busy_board) = Inr (Some 3)
   \<and> (''carol'', 300) \<in> set (leaderboard busy_board)
   \<and> fst (getUserRank (env0 9) ''carol'' busy_board) = Inr (Some 1)
   \<and> ahead_of ''carol'' 300 (leaderboard busy_board) = higher_scores ''carol'' 300 (leaderboard busy_board)"
proof -
  have up: "redis_up (env0 9)" by (simp add: env0_def)
  have a: "(''alice'', 100) \<in> set (leaderboard busy_board)" by code_simp
  have c: "(''carol'', 300) \<in> set (leaderboard busy_board)" by code_simp
  have na: "length (ahead_of ''alice'' 100 (leaderboard busy_board)) = 2" by code_simp
  have nc: "length (ahead_of ''carol'' 300 (leaderboard busy_board)) = 0" by code_simp
  have t: "\<forall>(m', s')\<in>set (leaderboard busy_board). s' = 300 \<longrightarrow> m' = ''carol''" by code_simp
  from rank_is_one_plus_members_ahead[OF up a[unfolded busy_board_def]]
       rank_is_one_plus_members_ahead[OF up c[unfolded busy_board_def]]
  show ?thesis
    using up a c na nc t unfolding busy_board_def by simp
qed

end
